theory Spec2Isabelle
  imports Main
begin

section \<open>The engine session: \<open>ChessEngine\<close> (chessengine.cpp)\<close>

text \<open>
  \<open>ChessEngine\<close> drives one engine process over a \<open>QIODevice\<close>. Its member
  functions run on one thread, one at a time, so each is a function from the session
  before the call to the session after it. What a call does to the outside (bytes handed
  to the device, signals emitted, calls of the base class \<open>ChessPlayer\<close> and of the
  protocol's pure virtual functions) is appended to the session's \<open>trace\<close>, in the
  order of the source's statements. Slots that other objects connect to an emitted signal
  are not part of \<open>ChessEngine\<close> and are not run by the model.

  Modelled are \<open>write\<close>, \<open>flushWriteBuffer\<close>, \<open>ping\<close>, \<open>pong\<close>,
  \<open>closeConnection\<close>, \<open>onPingTimeout\<close>, \<open>getOption\<close>, \<open>setOption\<close>,
  \<open>isReady\<close>, \<open>start\<close>, \<open>onProtocolStart\<close>, \<open>quit\<close>, the constructor and the
  destructor. The members \<open>m_whiteEvalPov\<close> (which the constructor sets to false) and
  \<open>m_variants\<close> play no part in these and are left out.
\<close>

subsection \<open>Data\<close>

text \<open>
  The player states. \<open>ChessPlayer::State\<close> is declared outside chessengine.cpp; the
  source names \<open>NotStarted\<close>, \<open>Starting\<close>, \<open>Idle\<close>, \<open>Observing\<close>,
  \<open>FinishingGame\<close> and \<open>Disconnected\<close>, and section 3 of the specification lists the
  seven values below.
\<close>

datatype State =
    NotStarted | Starting | Idle | Observing | Thinking | FinishingGame | Disconnected

text \<open>
  \<open>Chess::Result\<close> is declared outside the sources. The one code chessengine.cpp names
  is \<open>WinByStalledConnection\<close>; \<open>OtherResult\<close> stands for the remaining codes.
\<close>

datatype Result = WinByStalledConnection | OtherResult nat

text \<open>
  The observable effects of a call, in the order they happen.
  \<^item> \<open>IoWrite bytes\<close>: \<open>m_ioDevice->write(bytes)\<close>;
  \<^item> \<open>IoClose\<close>: \<open>m_ioDevice->close()\<close>;
  \<^item> \<open>DebugMessage name id data\<close>: \<open>emit debugMessage(">name(id): data")\<close>;
  \<^item> \<open>QDebug items\<close>: a \<open>qDebug()\<close> line, with the items streamed into it;
  \<^item> \<open>Ready\<close>: \<open>emit ready()\<close>;
  \<^item> \<open>Forfeit r\<close>: \<open>emitForfeit(r)\<close> of \<open>ChessPlayer\<close>;
  \<^item> \<open>SetState st\<close>: \<open>setState(st)\<close> of \<open>ChessPlayer\<close>;
  \<^item> \<open>SendPing ok\<close>: a call of the pure virtual \<open>sendPing()\<close> that returned \<open>ok\<close>;
  \<^item> \<open>SendQuit\<close>, \<open>StartProtocol\<close>, \<open>SendOption name value\<close>: calls of the pure
    virtual \<open>sendQuit()\<close>, \<open>startProtocol()\<close> and \<open>sendOption(name, value)\<close>.
\<close>

datatype event =
    IoWrite string
  | IoClose
  | DebugMessage string int string
  | QDebug "string list"
  | Ready
  | Forfeit Result
  | SetState State
  | SendPing bool
  | SendQuit
  | StartProtocol
  | SendOption string string

text \<open>
  \<open>EngineOption\<close> is declared in engineoption.h, outside the sources; chessengine.cpp
  uses its \<open>name()\<close>, \<open>isValid(value)\<close> and \<open>setValue(value)\<close>. A \<open>QVariant\<close> value is
  modelled by the text \<open>value.toString()\<close> gives, which is what \<open>sendOption\<close> receives.
\<close>

record EngineOption =
  opt_name :: string
  opt_value :: string
  opt_isValid :: "string \<Rightarrow> bool"

text \<open>
  The session. \<open>state\<close> and \<open>player_name\<close> are the base class's \<open>state()\<close> and
  \<open>name()\<close>; the \<open>m_\<close> fields are the members of \<open>ChessEngine\<close>
  (\<open>m_pingTimer\<close> is \<open>Some msec\<close> while the single-shot timer is armed);
  \<open>io_open\<close> and \<open>io_writable\<close> are \<open>m_ioDevice->isOpen()\<close> and
  \<open>m_ioDevice->isWritable()\<close>; \<open>io_listening\<close> says that the device's
  \<open>readChannelFinished()\<close> signal is connected to \<open>onDisconnect()\<close>.
  A \<open>QString\<close> is a \<open>string\<close> of 8-bit characters, on which \<open>toAscii()\<close> is the
  identity.
\<close>

record ChessEngine =
  state :: State
  player_name :: string
  m_id :: int
  m_pingState :: State
  m_pinging :: bool
  m_pingTimer :: "nat option"
  m_writeBuffer :: "string list"
  m_optionBuffer :: "(string \<times> string) list"
  m_options :: "EngineOption list"
  io_open :: bool
  io_writable :: bool
  io_listening :: bool
  trace :: "event list"

subsection \<open>Operations\<close>

definition emit :: "event \<Rightarrow> ChessEngine \<Rightarrow> ChessEngine" where
  "emit e s = s\<lparr>trace := trace s @ [e]\<rparr>"

text \<open>
  Modelled from the spec: \<open>ChessPlayer::setState\<close> is not among the sources; section 6
  names it as the setter of \<open>state\<close>. The call is recorded in the trace.
\<close>

definition setState :: "State \<Rightarrow> ChessEngine \<Rightarrow> ChessEngine" where
  "setState st s = emit (SetState st) (s\<lparr>state := st\<rparr>)"

text \<open>
  \<open>ChessEngine::write\<close>. A result \<open>None\<close> is a failed \<open>Q_ASSERT\<close>, here
  \<open>Q_ASSERT(m_ioDevice->isWritable())\<close>, which aborts the process.
\<close>

definition write_line :: "string \<Rightarrow> ChessEngine \<Rightarrow> ChessEngine option" where
  "write_line data s =
     (if state s = Disconnected then Some s
      else if state s = NotStarted \<or> m_pinging s
        then Some (s\<lparr>m_writeBuffer := m_writeBuffer s @ [data]\<rparr>)
      else if \<not> io_writable s then None
      else Some (emit (IoWrite (data @ [CHR 0x0A]))
                  (emit (DebugMessage (player_name s) (m_id s) data) s)))"

text \<open>A sequence of \<open>write\<close> calls, as a \<open>foreach\<close> loop or a caller makes them.\<close>

fun write_all :: "string list \<Rightarrow> ChessEngine \<Rightarrow> ChessEngine option" where
  "write_all [] s = Some s"
| "write_all (l # ls) s =
     (case write_line l s of None \<Rightarrow> None | Some s' \<Rightarrow> write_all ls s')"

text \<open>
  \<open>ChessEngine::flushWriteBuffer\<close>. \<open>foreach\<close> iterates over a copy of
  \<open>m_writeBuffer\<close>, taken before the first \<open>write\<close>.
\<close>

definition flushWriteBuffer :: "ChessEngine \<Rightarrow> ChessEngine option" where
  "flushWriteBuffer s =
     (if m_pinging s \<or> state s = NotStarted then Some s
      else case write_all (m_writeBuffer s) s of
             None \<Rightarrow> None
           | Some s' \<Rightarrow> Some (s'\<lparr>m_writeBuffer := []\<rparr>))"

text \<open>
  \<open>ChessEngine::ping\<close>. \<open>sendPing()\<close> is pure virtual; \<open>ok\<close> is the value it returns
  when it is called, which C++'s \<open>||\<close> does only if the three tests before it are false.
\<close>

definition ping :: "bool \<Rightarrow> ChessEngine \<Rightarrow> ChessEngine" where
  "ping ok s =
     (if m_pinging s \<or> state s = NotStarted \<or> state s = Disconnected then s
      else if \<not> ok then emit (SendPing ok) s
      else (emit (SendPing ok) s)
             \<lparr>m_pinging := True, m_pingState := state s, m_pingTimer := Some 10000\<rparr>)"

text \<open>
  \<open>ChessEngine::pong\<close>; \<open>ok\<close> is what \<open>sendPing()\<close> returns if the second \<open>ping()\<close>
  calls it.
\<close>

definition pong :: "bool \<Rightarrow> ChessEngine \<Rightarrow> ChessEngine option" where
  "pong ok s =
     (if \<not> m_pinging s then Some s
      else case flushWriteBuffer (s\<lparr>m_pingTimer := None, m_pinging := False\<rparr>) of
             None \<Rightarrow> None
           | Some s1 \<Rightarrow>
               if state s1 = FinishingGame then
                 (if m_pingState s1 = FinishingGame
                  then Some (emit Ready ((setState Idle s1)\<lparr>m_pingState := Idle\<rparr>))
                  else Some (ping ok s1))
               else Some (emit Ready s1))"

text \<open>
  Modelled from the spec: \<open>ChessPlayer::closeConnection\<close> is not among the sources;
  section 4.1 gives its effect as the transition to \<open>Disconnected\<close>.
\<close>

definition ChessPlayer_closeConnection :: "ChessEngine \<Rightarrow> ChessEngine" where
  "ChessPlayer_closeConnection s = setState Disconnected s"

text \<open>\<open>ChessEngine::closeConnection\<close>.\<close>

definition closeConnection :: "ChessEngine \<Rightarrow> ChessEngine" where
  "closeConnection s =
     (if state s = Disconnected then s
      else (emit IoClose
             ((emit Ready
                ((ChessPlayer_closeConnection s)
                   \<lparr>m_pinging := False, m_pingTimer := None, m_writeBuffer := []\<rparr>))
              \<lparr>io_listening := False\<rparr>))
           \<lparr>io_open := False, io_writable := False\<rparr>)"

text \<open>\<open>ChessEngine::onPingTimeout\<close>, the slot of the timer's \<open>timeout()\<close> signal.\<close>

definition onPingTimeout :: "ChessEngine \<Rightarrow> ChessEngine" where
  "onPingTimeout s =
     emit (Forfeit WinByStalledConnection)
       (closeConnection
          ((emit (QDebug [''Engine'', player_name s, ''failed to respond to ping'']) s)
             \<lparr>m_pinging := False, m_writeBuffer := []\<rparr>))"

text \<open>
  The timer fires. \<open>m_pingTimer\<close> is single-shot: when its time is up the timer is no
  longer active, and its \<open>timeout()\<close> signal runs the slot. Only an armed timer fires.
\<close>

definition pingTimer_timeout :: "ChessEngine \<Rightarrow> ChessEngine" where
  "pingTimer_timeout s = onPingTimeout (s\<lparr>m_pingTimer := None\<rparr>)"

text \<open>
  \<open>ChessEngine::getOption\<close>: the first option of that name. The pointer it returns is
  the option's position in \<open>m_options\<close>; the null pointer is \<open>None\<close>.
\<close>

fun getOption :: "EngineOption list \<Rightarrow> string \<Rightarrow> nat option" where
  "getOption [] name = None"
| "getOption (opt # opts) name =
     (if opt_name opt = name then Some 0 else map_option Suc (getOption opts name))"

text \<open>\<open>ChessEngine::setOption\<close>.\<close>

definition setOption :: "string \<Rightarrow> string \<Rightarrow> ChessEngine \<Rightarrow> ChessEngine" where
  "setOption name val s =
     (if state s = Starting \<or> state s = NotStarted
        then s\<lparr>m_optionBuffer := m_optionBuffer s @ [(name, val)]\<rparr>
      else case getOption (m_options s) name of
             None \<Rightarrow> emit (QDebug [player_name s, ''doesn't have option'', name]) s
           | Some i \<Rightarrow>
               if \<not> opt_isValid (m_options s ! i) val
                 then emit (QDebug [''Invalid value for option'', name, '':'', val]) s
               else emit (SendOption name val)
                      (s\<lparr>m_options := (m_options s)[i := (m_options s ! i)\<lparr>opt_value := val\<rparr>]\<rparr>))"

text \<open>
  \<open>ChessEngine::isReady\<close>. \<open>ChessPlayer::isReady\<close> is not among the sources: it is
  the parameter \<open>rdy\<close>, a function of the base class's state.
\<close>

definition isReady :: "(State \<Rightarrow> bool) \<Rightarrow> ChessEngine \<Rightarrow> bool" where
  "isReady rdy s = (if m_pinging s then False else rdy (state s))"

text \<open>\<open>ChessEngine::start\<close>.\<close>

definition start :: "ChessEngine \<Rightarrow> ChessEngine option" where
  "start s =
     (if state s \<noteq> NotStarted then Some s
      else case flushWriteBuffer (setState Starting (s\<lparr>m_pinging := False\<rparr>)) of
             None \<Rightarrow> None
           | Some s1 \<Rightarrow> Some ((emit StartProtocol s1)\<lparr>m_pinging := True\<rparr>))"

text \<open>
  \<open>ChessEngine::onProtocolStart\<close>. \<open>None\<close> is a failed \<open>Q_ASSERT\<close>: that of
  \<open>isReady()\<close> here, or that of a \<open>write\<close> during the flush. \<open>foreach\<close> iterates over
  a copy of \<open>m_optionBuffer\<close>.
\<close>

definition onProtocolStart :: "(State \<Rightarrow> bool) \<Rightarrow> ChessEngine \<Rightarrow> ChessEngine option" where
  "onProtocolStart rdy s =
     (let s1 = setState Idle (s\<lparr>m_pinging := False\<rparr>) in
      if \<not> isReady rdy s1 then None
      else case flushWriteBuffer s1 of
             None \<Rightarrow> None
           | Some s2 \<Rightarrow>
               Some ((fold (\<lambda>(name, val). setOption name val) (m_optionBuffer s2) s2)
                       \<lparr>m_optionBuffer := []\<rparr>))"

text \<open>\<open>ChessEngine::quit\<close>.\<close>

definition quit :: "ChessEngine \<Rightarrow> ChessEngine" where
  "quit s =
     (if \<not> io_open s \<or> state s = Disconnected then s
      else setState Disconnected (emit SendQuit (s\<lparr>io_listening := False\<rparr>)))"

subsection \<open>Construction and destruction\<close>

text \<open>
  \<open>int ChessEngine::m_count = 0\<close> is a static member: one counter for the process,
  passed in and out here. The constructor initialises \<open>m_id(m_count++)\<close> and the
  destructor runs \<open>--m_count\<close>. \<open>int\<close> has 32 bits; \<open>++\<close> at \<open>INT_MAX\<close> and \<open>--\<close>
  at \<open>INT_MIN\<close> overflow, which is undefined in C++: the result is \<open>None\<close>.
\<close>

definition INT_MAX :: int where
  "INT_MAX = 2147483647"

definition INT_MIN :: int where
  "INT_MIN = - 2147483648"

text \<open>
  \<open>ChessEngine::ChessEngine(ioDevice, parent)\<close>. The device is \<open>None\<close> for a null
  pointer, which fails \<open>Q_ASSERT(m_ioDevice != 0)\<close>, and otherwise
  \<open>Some (isOpen, isWritable)\<close>. The base class's constructor is not among the sources:
  the name it gives the player is the parameter \<open>nm\<close>, and the state it starts in is
  \<open>NotStarted\<close>, from which section 4.1 of the specification starts the lifecycle.
  The result is the new session and the counter after the call.
\<close>

definition construct ::
    "(bool \<times> bool) option \<Rightarrow> string \<Rightarrow> int \<Rightarrow> (ChessEngine \<times> int) option" where
  "construct ioDevice nm m_count =
     (if m_count = INT_MAX then None
      else case ioDevice of
             None \<Rightarrow> None
           | Some (opn, wr) \<Rightarrow>
               Some (\<lparr>state = NotStarted, player_name = nm, m_id = m_count,
                       m_pingState = NotStarted, m_pinging = False, m_pingTimer = None,
                       m_writeBuffer = [], m_optionBuffer = [], m_options = [],
                       io_open = opn, io_writable = wr, io_listening = True,
                       trace = []\<rparr>,
                     m_count + 1))"

text \<open>\<open>ChessEngine::~ChessEngine\<close>, on the counter.\<close>

definition destruct :: "int \<Rightarrow> int option" where
  "destruct m_count = (if m_count = INT_MIN then None else Some (m_count - 1))"

text \<open>
  A process constructs and destroys sessions in some order. \<open>assigned_ids\<close> runs such a
  sequence from a value of the counter and lists the ids the constructions assign, in
  order.
\<close>

datatype lifecycle = Construct "(bool \<times> bool) option" string | Destroy

fun assigned_ids :: "lifecycle list \<Rightarrow> int \<Rightarrow> int list option" where
  "assigned_ids [] c = Some []"
| "assigned_ids (Construct dev nm # ops) c =
     (case construct dev nm c of
        None \<Rightarrow> None
      | Some (e, c') \<Rightarrow> map_option ((#) (m_id e)) (assigned_ids ops c'))"
| "assigned_ids (Destroy # ops) c =
     (case destruct c of None \<Rightarrow> None | Some c' \<Rightarrow> assigned_ids ops c')"

text \<open>A construction over a device that is not null.\<close>

fun is_construct :: "lifecycle \<Rightarrow> bool" where
  "is_construct (Construct (Some d) nm) = True"
| "is_construct other = False"

subsection \<open>Reading a trace\<close>

text \<open>
  The events a buffered or direct \<open>write\<close> of each line of \<open>ls\<close> produces on a
  sendable session, the bytes a trace hands to the device, the \<open>sendOption\<close> calls of a
  trace, and the events a call added to the trace.
\<close>

definition sent_events :: "ChessEngine \<Rightarrow> string list \<Rightarrow> event list" where
  "sent_events s ls =
     concat (map (\<lambda>l. [DebugMessage (player_name s) (m_id s) l, IoWrite (l @ [CHR 0x0A])]) ls)"

fun written :: "event list \<Rightarrow> string list" where
  "written [] = []"
| "written (IoWrite b # es) = b # written es"
| "written (e # es) = written es"

fun options_sent :: "event list \<Rightarrow> (string \<times> string) list" where
  "options_sent [] = []"
| "options_sent (SendOption n v # es) = (n, v) # options_sent es"
| "options_sent (e # es) = options_sent es"

definition new_events :: "ChessEngine \<Rightarrow> ChessEngine \<Rightarrow> event list" where
  "new_events s s' = drop (length (trace s)) (trace s')"

fun forfeits :: "event list \<Rightarrow> Result list" where
  "forfeits [] = []"
| "forfeits (Forfeit r # es) = r # forfeits es"
| "forfeits (e # es) = forfeits es"

subsection \<open>What one option edit does\<close>

text \<open>
  Past \<open>Starting\<close>, \<open>setOption\<close> of the edit \<open>(name, val)\<close> on the options \<open>opts\<close>
  adds the events \<open>edit_events\<close> to the trace (the player's name is \<open>nm\<close>) and turns
  the options into \<open>apply_edit\<close>: lemma \<open>setOption_applied\<close> below. The edit is
  \<open>applicable\<close> when an option has the name and accepts the value.
\<close>

fun edit_events :: "string \<Rightarrow> EngineOption list \<Rightarrow> string \<times> string \<Rightarrow> event list" where
  "edit_events nm opts (name, val) =
     (case getOption opts name of
        None \<Rightarrow> [QDebug [nm, ''doesn't have option'', name]]
      | Some i \<Rightarrow>
          if \<not> opt_isValid (opts ! i) val
            then [QDebug [''Invalid value for option'', name, '':'', val]]
          else [SendOption name val])"

fun applicable :: "EngineOption list \<Rightarrow> string \<times> string \<Rightarrow> bool" where
  "applicable opts (name, val) =
     (case getOption opts name of None \<Rightarrow> False | Some i \<Rightarrow> opt_isValid (opts ! i) val)"

fun apply_edit :: "string \<times> string \<Rightarrow> EngineOption list \<Rightarrow> EngineOption list" where
  "apply_edit (name, val) opts =
     (case getOption opts name of
        None \<Rightarrow> opts
      | Some i \<Rightarrow>
          if \<not> opt_isValid (opts ! i) val then opts
          else opts[i := (opts ! i)\<lparr>opt_value := val\<rparr>])"

text \<open>Two option lists with the same names and the same validity tests, position by position.\<close>

definition same_shape :: "EngineOption list \<Rightarrow> EngineOption list \<Rightarrow> bool" where
  "same_shape opts opts' \<longleftrightarrow>
     map opt_name opts = map opt_name opts' \<and> map opt_isValid opts = map opt_isValid opts'"

subsection \<open>A concrete session\<close>

text \<open>
  The session the constructor returns for an open, writable device, the player name
  \<open>engine\<close> and the counter 0. The examples start from it.
\<close>

definition engine0 :: ChessEngine where
  "engine0 = \<lparr>state = NotStarted, player_name = ''engine'', m_id = 0,
               m_pingState = NotStarted, m_pinging = False, m_pingTimer = None,
               m_writeBuffer = [], m_optionBuffer = [], m_options = [],
               io_open = True, io_writable = True, io_listening = True,
               trace = []\<rparr>"

text \<open>An option named \<open>Hash\<close> with value 64, which accepts every value but 0.\<close>

definition hash_option :: EngineOption where
  "hash_option = \<lparr>opt_name = ''Hash'', opt_value = ''64'', opt_isValid = (\<lambda>v. v \<noteq> ''0'')\<rparr>"

section \<open>The Crazyhouse board (crazyhouseboard.h)\<close>

text \<open>
  crazyhouseboard.h declares \<open>CrazyhouseBoard\<close> and its piece types; the bodies of its
  member functions and the base class \<open>WesternBoard\<close> are not among the sources. What
  the board does on a capture is modelled from section 4.5 of the specification.
\<close>

datatype Side = White | Black

text \<open>The piece types of standard chess, which \<open>WesternBoard\<close> declares.\<close>

datatype BaseType = Pawn | Knight | Bishop | Rook | Queen | King

text \<open>
  Modelled from the spec: the piece types of a drop-capable variant. By section 4.5 and
  the glossary a promoted piece reverts, when it is captured, to the unpromoted type it
  was promoted from; so the type of a promotion product, \<open>Promoted b t\<close>, holds the type
  \<open>b\<close> it was promoted from and the type \<open>t\<close> it was promoted to. \<open>Plain t\<close> is a piece
  that is no promotion product.
\<close>

datatype PieceType = Plain BaseType | Promoted BaseType BaseType

text \<open>
  \<open>enum CrazyhousePieceType\<close> of the header: \<open>PromotedKnight = 7\<close>, then
  \<open>PromotedBishop\<close>, \<open>PromotedRook\<close> and \<open>PromotedQueen\<close>. The header documents them
  with ``All of these pieces where promoted from pawns, and when they're captured they
  get demoted back to pawns.''
\<close>

definition PromotedKnight :: PieceType where
  "PromotedKnight = Promoted Pawn Knight"

definition PromotedBishop :: PieceType where
  "PromotedBishop = Promoted Pawn Bishop"

definition PromotedRook :: PieceType where
  "PromotedRook = Promoted Pawn Rook"

definition PromotedQueen :: PieceType where
  "PromotedQueen = Promoted Pawn Queen"

text \<open>
  Modelled from the spec: the body of \<open>CrazyhouseBoard::handPieceType\<close> is missing. It
  gives the type under which a captured piece enters the hand: by section 4.5 its
  demoted form, which for a promoted piece is the unpromoted type it was promoted from
  and for any other piece its own type.
\<close>

fun handPieceType :: "PieceType \<Rightarrow> PieceType" where
  "handPieceType (Promoted b t) = Plain b"
| "handPieceType (Plain t) = Plain t"

fun isPromoted :: "PieceType \<Rightarrow> bool" where
  "isPromoted (Promoted b t) = True"
| "isPromoted (Plain t) = False"

text \<open>
  Modelled from the spec: promotion. By section 4.5 promotion and demotion round-trip:
  a piece that is promoted and then captured enters the hand as the type it had before
  the promotion. So promoting a piece to \<open>t\<close> gives a promoted piece that holds the
  piece's own demoted type as the type it was promoted from.
\<close>

fun promote :: "PieceType \<Rightarrow> BaseType \<Rightarrow> PieceType" where
  "promote (Plain b) t = Promoted b t"
| "promote (Promoted b t') t = Promoted b t"

text \<open>
  Modelled from the spec: the board and the move of section 3. A board has the piece on
  each square, the side to move and, per side and piece type, the number of pieces in
  hand. A move has a source square (\<open>None\<close> is the off-board source of a drop), a target
  square, and one slot that holds the type a board move promotes to or the type of the
  piece a drop places.
\<close>

record Board =
  pieceAt :: "int \<Rightarrow> (Side \<times> PieceType) option"
  sideToMove :: Side
  handCounts :: "Side \<Rightarrow> PieceType \<Rightarrow> nat"

record Move =
  sourceSquare :: "int option"
  targetSquare :: int
  promotion :: "BaseType option"

fun opponent :: "Side \<Rightarrow> Side" where
  "opponent White = Black"
| "opponent Black = White"

definition addToHand :: "Side \<Rightarrow> PieceType \<Rightarrow> Board \<Rightarrow> Board" where
  "addToHand sd t b =
     b\<lparr>handCounts := (handCounts b)(sd := (handCounts b sd)(t := handCounts b sd t + 1))\<rparr>"

definition removeFromHand :: "Side \<Rightarrow> PieceType \<Rightarrow> Board \<Rightarrow> Board" where
  "removeFromHand sd t b =
     b\<lparr>handCounts := (handCounts b)(sd := (handCounts b sd)(t := handCounts b sd t - 1))\<rparr>"

text \<open>
  What undoing a move needs from the board's history: the piece that moved, as it was
  before the move, and the piece it captured.
\<close>

record Undo =
  movedPiece :: "(Side \<times> PieceType) option"
  capturedPiece :: "(Side \<times> PieceType) option"

text \<open>
  Modelled from the spec: the body of \<open>CrazyhouseBoard::vMakeMove\<close> is missing. By
  section 4.5 a drop places a piece of the mover's hand on an empty square and consumes
  one unit of its count (it is refused, \<open>None\<close>, when the count is zero or the square is
  occupied); a board move carries the piece to the target square, promoted if the move
  promotes, and a captured piece is added to the capturing side's hand in its demoted
  form. A board move from an empty square is refused. Which pieces may promote, and
  where, is decided by the move generator (\<open>addPromotions\<close>,
  \<open>generateMovesForPiece\<close>), which the specification leaves to each variant:
  \<open>vMakeMove\<close> takes the move as it is given.
\<close>

definition vMakeMove :: "Move \<Rightarrow> Board \<Rightarrow> (Board \<times> Undo) option" where
  "vMakeMove m b =
     (case sourceSquare m of
        None \<Rightarrow>
          (case promotion m of
             None \<Rightarrow> None
           | Some t \<Rightarrow>
               if pieceAt b (targetSquare m) \<noteq> None \<or>
                  handCounts b (sideToMove b) (Plain t) = 0
                 then None
               else Some ((removeFromHand (sideToMove b) (Plain t) b)
                            \<lparr>pieceAt :=
                               (pieceAt b)(targetSquare m \<mapsto> (sideToMove b, Plain t)),
                              sideToMove := opponent (sideToMove b)\<rparr>,
                          \<lparr>movedPiece = None, capturedPiece = None\<rparr>))
      | Some src \<Rightarrow>
          (case pieceAt b src of
             None \<Rightarrow> None
           | Some (sd, ty) \<Rightarrow>
               let captured = pieceAt b (targetSquare m);
                   b1 = (case captured of
                           None \<Rightarrow> b
                         | Some (csd, ct) \<Rightarrow> addToHand (sideToMove b) (handPieceType ct) b);
                   placed = (case promotion m of None \<Rightarrow> ty | Some t \<Rightarrow> promote ty t)
               in Some (b1\<lparr>pieceAt := (pieceAt b)(src := None, targetSquare m \<mapsto> (sd, placed)),
                           sideToMove := opponent (sideToMove b)\<rparr>,
                        \<lparr>movedPiece = Some (sd, ty), capturedPiece = captured\<rparr>)))"


text \<open>
  Two boards with empty hands. On \<open>board0\<close> a black knight stands on square 1 and a
  white rook on square 3, and Black is to move. \<open>board1\<close> is \<open>board0\<close> after the knight
  has moved to square 2 and been promoted to a queen: White is to move. On \<open>board2\<close> a
  white rook stands on square 3 and a black \<open>PromotedQueen\<close> of the header, a pawn
  promoted to a queen, on square 2, and White is to move.
\<close>

definition board0 :: Board where
  "board0 = \<lparr>pieceAt = (\<lambda>sq. None)(1 \<mapsto> (Black, Plain Knight), 3 \<mapsto> (White, Plain Rook)),
              sideToMove = Black,
              handCounts = (\<lambda>sd t. 0)\<rparr>"

definition board1 :: Board where
  "board1 = \<lparr>pieceAt = (pieceAt board0)(1 := None, 2 \<mapsto> (Black, Promoted Knight Queen)),
              sideToMove = White,
              handCounts = (\<lambda>sd t. 0)\<rparr>"


section \<open>Properties of the engine session\<close>

lemma construct_engine0: "construct (Some (True, True)) ''engine'' 0 = Some (engine0, 1)"
  by (simp add: construct_def engine0_def INT_MAX_def)

subsection \<open>Writing and flushing\<close>

lemma written_append: "written (xs @ ys) = written xs @ written ys"
  by (induction xs rule: written.induct) simp_all

lemma written_sent_events: "written (sent_events s ls) = map (\<lambda>l. l @ [CHR 0x0A]) ls"
  by (induction ls) (simp_all add: sent_events_def)

lemma write_all_deferred:
  "state s \<noteq> Disconnected \<Longrightarrow> state s = NotStarted \<or> m_pinging s \<Longrightarrow>
   write_all ls s = Some (s\<lparr>m_writeBuffer := m_writeBuffer s @ ls\<rparr>)"
proof (induction ls arbitrary: s)
  case Nil
  then show ?case by simp
next
  case (Cons l ls)
  let ?s' = "s\<lparr>m_writeBuffer := m_writeBuffer s @ [l]\<rparr>"
  from Cons.prems have w: "write_line l s = Some ?s'"
    by (auto simp add: write_line_def)
  from Cons.prems have "write_all ls ?s' = Some (?s'\<lparr>m_writeBuffer := m_writeBuffer ?s' @ ls\<rparr>)"
    by (intro Cons.IH) simp_all
  with w show ?case by simp
qed

lemma write_all_Disconnected: "state s = Disconnected \<Longrightarrow> write_all ls s = Some s"
  by (induction ls) (simp_all add: write_line_def)

lemma write_all_sendable:
  "\<not> m_pinging s \<Longrightarrow> state s \<noteq> NotStarted \<Longrightarrow> state s \<noteq> Disconnected \<Longrightarrow>
   io_writable s \<Longrightarrow>
   write_all ls s = Some (s\<lparr>trace := trace s @ sent_events s ls\<rparr>)"
proof (induction ls arbitrary: s)
  case Nil
  then show ?case by (simp add: sent_events_def)
next
  case (Cons l ls)
  let ?s' = "s\<lparr>trace := trace s @ sent_events s [l]\<rparr>"
  from Cons.prems have w: "write_line l s = Some ?s'"
    by (simp add: write_line_def emit_def sent_events_def)
  from Cons.prems have "write_all ls ?s' = Some (?s'\<lparr>trace := trace ?s' @ sent_events ?s' ls\<rparr>)"
    by (intro Cons.IH) simp_all
  with w show ?case by (simp add: sent_events_def)
qed

lemma flush_deferred:
  "m_pinging s \<or> state s = NotStarted \<Longrightarrow> flushWriteBuffer s = Some s"
  by (simp add: flushWriteBuffer_def)

lemma flush_sendable:
  "\<not> m_pinging s \<Longrightarrow> state s \<noteq> NotStarted \<Longrightarrow> state s \<noteq> Disconnected \<Longrightarrow>
   io_writable s \<Longrightarrow>
   flushWriteBuffer s =
     Some (s\<lparr>m_writeBuffer := [], trace := trace s @ sent_events s (m_writeBuffer s)\<rparr>)"
  by (simp add: flushWriteBuffer_def write_all_sendable)

lemma flush_Disconnected:
  "\<not> m_pinging s \<Longrightarrow> state s = Disconnected \<Longrightarrow>
   flushWriteBuffer s = Some (s\<lparr>m_writeBuffer := []\<rparr>)"
  by (simp add: flushWriteBuffer_def write_all_Disconnected)

subsection \<open>Writing to a disconnected session\<close>

text \<open>
  Claim C8. On a session whose state is \<open>Disconnected\<close>, \<open>write\<close> of any line returns
  normally (no assertion fails) and returns the session as it was: the outbound buffer
  is not changed and the trace gains no event, so nothing is handed to the device.
\<close>

theorem write_Disconnected_noop:
  "state s = Disconnected \<Longrightarrow> write_line data s = Some s"
  by (simp add: write_line_def)

theorem write_Disconnected_noop_witness:
  "state (engine0\<lparr>state := Disconnected, m_writeBuffer := [''new'']\<rparr>) = Disconnected \<and>
   write_line ''go'' (engine0\<lparr>state := Disconnected, m_writeBuffer := [''new'']\<rparr>)
     = Some (engine0\<lparr>state := Disconnected, m_writeBuffer := [''new'']\<rparr>)"
  using write_Disconnected_noop
          [of "engine0\<lparr>state := Disconnected, m_writeBuffer := [''new'']\<rparr>" "''go''"]
  by simp

subsection \<open>The heartbeat timeout\<close>

lemma onPingTimeout_trace:
  "trace (onPingTimeout s) =
     trace s @ [QDebug [''Engine'', player_name s, ''failed to respond to ping'']] @
     (if state s = Disconnected then [] else [SetState Disconnected, Ready, IoClose]) @
     [Forfeit WinByStalledConnection]"
  by (simp add: onPingTimeout_def closeConnection_def ChessPlayer_closeConnection_def
        setState_def emit_def)

lemma onPingTimeout_fields:
  "\<not> m_pinging (onPingTimeout s) \<and> state (onPingTimeout s) = Disconnected \<and>
   m_writeBuffer (onPingTimeout s) = []"
  by (simp add: onPingTimeout_def closeConnection_def ChessPlayer_closeConnection_def
        setState_def emit_def)

lemma onPingTimeout_forfeits:
  "forfeits (new_events s (onPingTimeout s)) = [WinByStalledConnection]"
  by (simp add: new_events_def onPingTimeout_trace)

text \<open>
  Claim C1. When the heartbeat timer fires on a session that awaits a heartbeat, the
  slot \<open>onPingTimeout\<close> leaves the session not awaiting a heartbeat, in state
  \<open>Disconnected\<close> and with an empty outbound buffer; the events it adds to the trace
  hold exactly one forfeiture report, and its cause is \<open>WinByStalledConnection\<close>. The
  same is true of the slot run by the timer, \<open>pingTimer_timeout\<close>.
\<close>

theorem heartbeat_timeout_fatal:
  "m_pinging s \<Longrightarrow>
   \<not> m_pinging (onPingTimeout s) \<and> state (onPingTimeout s) = Disconnected \<and>
   m_writeBuffer (onPingTimeout s) = [] \<and>
   trace (onPingTimeout s) = trace s @ new_events s (onPingTimeout s) \<and>
   forfeits (new_events s (onPingTimeout s)) = [WinByStalledConnection] \<and>
   \<not> m_pinging (pingTimer_timeout s) \<and> state (pingTimer_timeout s) = Disconnected \<and>
   m_writeBuffer (pingTimer_timeout s) = [] \<and>
   trace (pingTimer_timeout s) = trace s @ new_events s (pingTimer_timeout s) \<and>
   forfeits (new_events s (pingTimer_timeout s)) = [WinByStalledConnection]"
  using onPingTimeout_fields [of s] onPingTimeout_forfeits [of s]
    onPingTimeout_fields [of "s\<lparr>m_pingTimer := None\<rparr>"]
  by (simp add: new_events_def onPingTimeout_trace pingTimer_timeout_def)

text \<open>
  The scenario of the specification: a session in \<open>Idle\<close> with a line waiting sends a
  heartbeat, and the timer fires before any acknowledgement.
\<close>

theorem heartbeat_timeout_fatal_witness:
  "m_pinging (ping True (engine0\<lparr>state := Idle, m_writeBuffer := [''new'']\<rparr>)) \<and>
   onPingTimeout (ping True (engine0\<lparr>state := Idle, m_writeBuffer := [''new'']\<rparr>)) =
     engine0\<lparr>state := Disconnected, m_pingState := Idle,
       io_open := False, io_writable := False, io_listening := False,
       trace := [SendPing True,
                 QDebug [''Engine'', ''engine'', ''failed to respond to ping''],
                 SetState Disconnected, Ready, IoClose,
                 Forfeit WinByStalledConnection]\<rparr> \<and>
   forfeits (new_events (ping True (engine0\<lparr>state := Idle, m_writeBuffer := [''new'']\<rparr>))
      (onPingTimeout (ping True (engine0\<lparr>state := Idle, m_writeBuffer := [''new'']\<rparr>))))
     = [WinByStalledConnection]"
  using heartbeat_timeout_fatal
          [of "ping True (engine0\<lparr>state := Idle, m_writeBuffer := [''new'']\<rparr>)"]
  by (simp add: ping_def engine0_def emit_def onPingTimeout_def closeConnection_def
        ChessPlayer_closeConnection_def setState_def)

subsection \<open>Sending a heartbeat\<close>

text \<open>
  Claim C5. \<open>ping\<close> on a session that already awaits a heartbeat, or whose state is
  \<open>NotStarted\<close> or \<open>Disconnected\<close>, returns the session as it was: \<open>sendPing\<close> is not
  called, the timer is not armed again, and state, baseline and outbound buffer are
  unchanged. When \<open>sendPing\<close> reports failure the session is unchanged as well, but for
  the trace, which holds at most the failed call: the flag, the baseline, the timer, the
  state and the buffer stay as they were.
\<close>

theorem ping_noop:
  "(m_pinging s \<or> state s = NotStarted \<or> state s = Disconnected \<longrightarrow> ping ok s = s) \<and>
   ping False s = s\<lparr>trace := trace (ping False s)\<rparr> \<and>
   new_events s (ping False s) =
     (if m_pinging s \<or> state s = NotStarted \<or> state s = Disconnected then []
      else [SendPing False])"
  by (simp add: ping_def emit_def new_events_def)

theorem ping_noop_witness:
  "m_pinging (ping True (engine0\<lparr>state := Observing\<rparr>)) \<and>
   ping True (ping True (engine0\<lparr>state := Observing\<rparr>)) =
     ping True (engine0\<lparr>state := Observing\<rparr>) \<and>
   ping True engine0 = engine0 \<and>
   ping True (engine0\<lparr>state := Disconnected\<rparr>) = engine0\<lparr>state := Disconnected\<rparr> \<and>
   ping False (engine0\<lparr>state := Observing\<rparr>) =
     engine0\<lparr>state := Observing, trace := [SendPing False]\<rparr>"
  using ping_noop [of "ping True (engine0\<lparr>state := Observing\<rparr>)" True]
        ping_noop [of engine0 True]
        ping_noop [of "engine0\<lparr>state := Disconnected\<rparr>" True]
        ping_noop [of "engine0\<lparr>state := Observing\<rparr>" True]
  by (simp add: ping_def engine0_def emit_def)

subsection \<open>The heartbeat acknowledgement\<close>

lemma sent_events_no_Ready: "Ready \<notin> set (sent_events s ls)"
  by (auto simp add: sent_events_def)

lemma sent_events_no_SetState: "SetState st \<notin> set (sent_events s ls)"
  by (auto simp add: sent_events_def)

lemma sent_events_upd [simp]:
  "sent_events (s\<lparr>m_pingTimer := x\<rparr>) ls = sent_events s ls"
  "sent_events (s\<lparr>m_pinging := y\<rparr>) ls = sent_events s ls"
  "sent_events (s\<lparr>m_writeBuffer := z\<rparr>) ls = sent_events s ls"
  "sent_events (s\<lparr>state := w\<rparr>) ls = sent_events s ls"
  "sent_events (s\<lparr>trace := v\<rparr>) ls = sent_events s ls"
  by (simp_all add: sent_events_def)

text \<open>\<open>pong\<close> on a session that awaits a heartbeat, branch by branch.\<close>

lemma pong_settle:
  assumes "m_pinging s" "io_writable s" "state s = FinishingGame"
    "m_pingState s = FinishingGame"
  shows "pong ok s =
     Some (s\<lparr>state := Idle, m_pingState := Idle, m_pinging := False, m_pingTimer := None,
             m_writeBuffer := [],
             trace := trace s @ sent_events s (m_writeBuffer s) @ [SetState Idle, Ready]\<rparr>)"
  using assms by (simp add: pong_def flush_sendable setState_def emit_def)

lemma pong_reping:
  assumes "m_pinging s" "io_writable s" "state s = FinishingGame"
    "m_pingState s \<noteq> FinishingGame"
  shows "pong ok s =
     Some (s\<lparr>m_pingState := (if ok then FinishingGame else m_pingState s),
             m_pinging := ok, m_pingTimer := (if ok then Some 10000 else None),
             m_writeBuffer := [],
             trace := trace s @ sent_events s (m_writeBuffer s) @ [SendPing ok]\<rparr>)"
  using assms by (simp add: pong_def flush_sendable ping_def emit_def)

lemma pong_other:
  assumes "m_pinging s" "io_writable s" "state s \<noteq> FinishingGame"
  shows "pong ok s =
     Some (s\<lparr>m_pinging := False, m_pingTimer := None,
             m_writeBuffer := (if state s = NotStarted then m_writeBuffer s else []),
             trace := trace s @
               (if state s = NotStarted \<or> state s = Disconnected then []
                else sent_events s (m_writeBuffer s)) @ [Ready]\<rparr>)"
proof -
  consider "state s = NotStarted" | "state s = Disconnected"
    | "state s \<noteq> NotStarted" "state s \<noteq> Disconnected" by blast
  then show ?thesis
  proof cases
    case 1
    then show ?thesis using assms by (simp add: pong_def flush_deferred emit_def)
  next
    case 2
    then show ?thesis using assms by (simp add: pong_def flush_Disconnected emit_def)
  next
    case 3
    then show ?thesis using assms by (simp add: pong_def flush_sendable emit_def)
  qed
qed

text \<open>
  Claim C2, as amended. Let the session await a heartbeat and let its device be
  writable, as \<open>write\<close> asserts during the flush. When the acknowledgement arrives
  \<^item> in state \<open>FinishingGame\<close> with baseline \<open>FinishingGame\<close>: the buffered lines are
    sent, the state is set to \<open>Idle\<close> exactly once and \<open>ready\<close> is emitted exactly once;
  \<^item> in state \<open>FinishingGame\<close> with another baseline: the buffered lines are sent,
    \<open>sendPing\<close> is called once and \<open>ready\<close> is not emitted. If \<open>sendPing\<close> succeeds, the
    session awaits a heartbeat again, with baseline \<open>FinishingGame\<close> and the timer armed
    for 10000 ms, and the next acknowledgement sets the state to \<open>Idle\<close> and emits
    \<open>ready\<close>. If \<open>sendPing\<close> reports failure, no heartbeat is outstanding and no timer
    is armed;
  \<^item> in any other state: the state is kept and \<open>ready\<close> is emitted exactly once, after
    the buffered lines (which are sent unless the state is \<open>NotStarted\<close>, where they stay
    buffered, or \<open>Disconnected\<close>, where they are dropped).
\<close>

theorem pong_settles_or_repings:
  assumes "m_pinging s" and "io_writable s"
  shows
   "(state s = FinishingGame \<and> m_pingState s = FinishingGame \<longrightarrow>
       (\<exists>s'. pong ok s = Some s' \<and> state s' = Idle \<and> \<not> m_pinging s' \<and>
          new_events s s' = sent_events s (m_writeBuffer s) @ [SetState Idle, Ready] \<and>
          count_list (new_events s s') (SetState Idle) = 1 \<and>
          count_list (new_events s s') Ready = 1)) \<and>
    (state s = FinishingGame \<and> m_pingState s \<noteq> FinishingGame \<longrightarrow>
       (\<exists>s'. pong ok s = Some s' \<and> state s' = FinishingGame \<and>
          new_events s s' = sent_events s (m_writeBuffer s) @ [SendPing ok] \<and>
          count_list (new_events s s') Ready = 0 \<and>
          (ok \<longrightarrow> m_pinging s' \<and> m_pingState s' = FinishingGame \<and>
                  m_pingTimer s' = Some 10000 \<and>
                  (\<exists>s''. pong ok2 s' = Some s'' \<and> state s'' = Idle \<and>
                     new_events s' s'' = [SetState Idle, Ready])) \<and>
          (\<not> ok \<longrightarrow> \<not> m_pinging s' \<and> m_pingTimer s' = None))) \<and>
    (state s \<noteq> FinishingGame \<longrightarrow>
       (\<exists>s'. pong ok s = Some s' \<and> state s' = state s \<and> \<not> m_pinging s' \<and>
          new_events s s' =
            (if state s = NotStarted \<or> state s = Disconnected then []
             else sent_events s (m_writeBuffer s)) @ [Ready] \<and>
          count_list (new_events s s') Ready = 1))"
proof (intro conjI impI)
  assume a: "state s = FinishingGame \<and> m_pingState s = FinishingGame"
  show "\<exists>s'. pong ok s = Some s' \<and> state s' = Idle \<and> \<not> m_pinging s' \<and>
          new_events s s' = sent_events s (m_writeBuffer s) @ [SetState Idle, Ready] \<and>
          count_list (new_events s s') (SetState Idle) = 1 \<and>
          count_list (new_events s s') Ready = 1"
    using assms a sent_events_no_Ready [of s "m_writeBuffer s"]
      sent_events_no_SetState [of Idle s "m_writeBuffer s"]
    by (simp add: pong_settle new_events_def count_list_0_iff)
next
  assume a: "state s = FinishingGame \<and> m_pingState s \<noteq> FinishingGame"
  let ?s' = "s\<lparr>m_pingState := (if ok then FinishingGame else m_pingState s),
             m_pinging := ok, m_pingTimer := (if ok then Some 10000 else None),
             m_writeBuffer := [],
             trace := trace s @ sent_events s (m_writeBuffer s) @ [SendPing ok]\<rparr>"
  have p: "pong ok s = Some ?s'"
    using assms a by (simp add: pong_reping)
  have second: "pong ok2 ?s' =
      Some (?s'\<lparr>state := Idle, m_pingState := Idle, m_pinging := False, m_pingTimer := None,
              m_writeBuffer := [],
              trace := trace ?s' @ sent_events ?s' (m_writeBuffer ?s') @ [SetState Idle, Ready]\<rparr>)"
    if "ok"
    using assms a that by (intro pong_settle) simp_all
  show "\<exists>s'. pong ok s = Some s' \<and> state s' = FinishingGame \<and>
          new_events s s' = sent_events s (m_writeBuffer s) @ [SendPing ok] \<and>
          count_list (new_events s s') Ready = 0 \<and>
          (ok \<longrightarrow> m_pinging s' \<and> m_pingState s' = FinishingGame \<and>
                  m_pingTimer s' = Some 10000 \<and>
                  (\<exists>s''. pong ok2 s' = Some s'' \<and> state s'' = Idle \<and>
                     new_events s' s'' = [SetState Idle, Ready])) \<and>
          (\<not> ok \<longrightarrow> \<not> m_pinging s' \<and> m_pingTimer s' = None)"
  proof (cases ok)
    case True
    with second have "pong ok2 ?s' =
      Some (?s'\<lparr>state := Idle, m_pingState := Idle, m_pinging := False, m_pingTimer := None,
              m_writeBuffer := [],
              trace := trace ?s' @ sent_events ?s' (m_writeBuffer ?s') @ [SetState Idle, Ready]\<rparr>)"
      by simp
    with p True a sent_events_no_Ready [of s "m_writeBuffer s"] show ?thesis
      by (simp add: new_events_def count_list_0_iff sent_events_def)
  next
    case False
    with p a sent_events_no_Ready [of s "m_writeBuffer s"] show ?thesis
      by (simp add: new_events_def count_list_0_iff)
  qed
next
  assume a: "state s \<noteq> FinishingGame"
  show "\<exists>s'. pong ok s = Some s' \<and> state s' = state s \<and> \<not> m_pinging s' \<and>
          new_events s s' =
            (if state s = NotStarted \<or> state s = Disconnected then []
             else sent_events s (m_writeBuffer s)) @ [Ready] \<and>
          count_list (new_events s s') Ready = 1"
    using assms a sent_events_no_Ready [of s "m_writeBuffer s"]
    by (simp add: pong_other new_events_def count_list_0_iff)
qed

text \<open>
  The three branches on concrete sessions: a heartbeat sent in \<open>FinishingGame\<close> with a
  line buffered behind it; a heartbeat sent in \<open>Observing\<close> whose acknowledgement finds
  the state \<open>FinishingGame\<close>, and the second acknowledgement; a heartbeat sent and
  acknowledged in \<open>Observing\<close>.
\<close>

theorem pong_settles_or_repings_witness:
  "m_pinging (ping True (engine0\<lparr>state := FinishingGame\<rparr>)) \<and>
   io_writable (ping True (engine0\<lparr>state := FinishingGame\<rparr>)) \<and>
   pong True ((ping True (engine0\<lparr>state := FinishingGame\<rparr>))\<lparr>m_writeBuffer := [''new'']\<rparr>) =
     Some (engine0\<lparr>state := Idle, m_pingState := Idle,
             trace := [SendPing True, DebugMessage ''engine'' 0 ''new'',
                       IoWrite [CHR ''n'', CHR ''e'', CHR ''w'', CHR 0x0A],
                       SetState Idle, Ready]\<rparr>) \<and>
   pong True ((ping True (engine0\<lparr>state := Observing\<rparr>))\<lparr>state := FinishingGame\<rparr>) =
     Some (engine0\<lparr>state := FinishingGame, m_pingState := FinishingGame, m_pinging := True,
             m_pingTimer := Some 10000, trace := [SendPing True, SendPing True]\<rparr>) \<and>
   pong True (engine0\<lparr>state := FinishingGame, m_pingState := FinishingGame, m_pinging := True,
             m_pingTimer := Some 10000, trace := [SendPing True, SendPing True]\<rparr>) =
     Some (engine0\<lparr>state := Idle, m_pingState := Idle,
             trace := [SendPing True, SendPing True, SetState Idle, Ready]\<rparr>) \<and>
   pong True (ping True (engine0\<lparr>state := Observing\<rparr>)) =
     Some (engine0\<lparr>state := Observing, m_pingState := Observing,
             trace := [SendPing True, Ready]\<rparr>)"
  using pong_settles_or_repings
          [of "(ping True (engine0\<lparr>state := FinishingGame\<rparr>))\<lparr>m_writeBuffer := [''new'']\<rparr>"
              True True]
        pong_settles_or_repings
          [of "(ping True (engine0\<lparr>state := Observing\<rparr>))\<lparr>state := FinishingGame\<rparr>" True True]
        pong_settles_or_repings [of "ping True (engine0\<lparr>state := Observing\<rparr>)" True True]
  by (simp add: pong_def ping_def engine0_def emit_def flushWriteBuffer_def write_line_def
        setState_def)

text \<open>
  Claim C2 as stated fails where \<open>sendPing\<close> reports failure. A heartbeat is sent in
  \<open>Observing\<close>, the game ends (state \<open>FinishingGame\<close>), and the acknowledgement
  arrives: the second \<open>ping\<close> calls \<open>sendPing\<close>, which fails. No heartbeat is
  outstanding afterwards, the timer is not armed, \<open>ready\<close> has not been emitted, and a
  later acknowledgement does nothing.
\<close>

theorem pong_reping_failure_counterexample:
  "pong False ((ping True (engine0\<lparr>state := Observing\<rparr>))\<lparr>state := FinishingGame\<rparr>) =
     Some (engine0\<lparr>state := FinishingGame, m_pingState := Observing, m_pinging := False,
             m_pingTimer := None, trace := [SendPing True, SendPing False]\<rparr>) \<and>
   pong True (engine0\<lparr>state := FinishingGame, m_pingState := Observing, m_pinging := False,
             m_pingTimer := None, trace := [SendPing True, SendPing False]\<rparr>) =
     Some (engine0\<lparr>state := FinishingGame, m_pingState := Observing, m_pinging := False,
             m_pingTimer := None, trace := [SendPing True, SendPing False]\<rparr>)"
  by (simp add: pong_def ping_def engine0_def emit_def flushWriteBuffer_def)

subsection \<open>Deferred writes\<close>

text \<open>
  Claim C3, as amended. Let the state not be \<open>Disconnected\<close>, and let the session be
  unable to send: its state is \<open>NotStarted\<close> or it awaits a heartbeat. Then
  \<^item> the lines passed to \<open>write\<close> are appended to the outbound buffer in the order
    submitted, and nothing else changes: no byte reaches the device;
  \<^item> a flush in that situation does nothing;
  \<^item> a flush of a session that holds these lines and can send (no heartbeat
    outstanding, state neither \<open>NotStarted\<close> nor \<open>Disconnected\<close>, device writable)
    hands exactly the buffered lines to the device, each followed by a line feed, in the
    order submitted, and empties the buffer;
  \<^item> in particular, unless the state is \<open>NotStarted\<close>, the acknowledgement of the
    outstanding heartbeat is such a flush.
\<close>

theorem deferred_writes_flushed_in_order:
  assumes "state s \<noteq> Disconnected" and "state s = NotStarted \<or> m_pinging s"
  shows
   "write_all ls s = Some (s\<lparr>m_writeBuffer := m_writeBuffer s @ ls\<rparr>) \<and>
    flushWriteBuffer (s\<lparr>m_writeBuffer := m_writeBuffer s @ ls\<rparr>) =
      Some (s\<lparr>m_writeBuffer := m_writeBuffer s @ ls\<rparr>) \<and>
    (\<forall>t. m_writeBuffer t = m_writeBuffer s @ ls \<and> \<not> m_pinging t \<and> state t \<noteq> NotStarted \<and>
         state t \<noteq> Disconnected \<and> io_writable t \<longrightarrow>
       (\<exists>t'. flushWriteBuffer t = Some t' \<and> m_writeBuffer t' = [] \<and>
          trace t' = trace t @ new_events t t' \<and>
          written (new_events t t') = map (\<lambda>l. l @ [CHR 0x0A]) (m_writeBuffer s @ ls))) \<and>
    (state s \<noteq> NotStarted \<and> io_writable s \<longrightarrow>
       (\<exists>t'. pong ok (s\<lparr>m_writeBuffer := m_writeBuffer s @ ls\<rparr>) = Some t' \<and>
          m_writeBuffer t' = [] \<and>
          written (new_events s t') = map (\<lambda>l. l @ [CHR 0x0A]) (m_writeBuffer s @ ls)))"
proof (intro conjI allI impI)
  show "write_all ls s = Some (s\<lparr>m_writeBuffer := m_writeBuffer s @ ls\<rparr>)"
    using assms by (rule write_all_deferred)
  show "flushWriteBuffer (s\<lparr>m_writeBuffer := m_writeBuffer s @ ls\<rparr>) =
      Some (s\<lparr>m_writeBuffer := m_writeBuffer s @ ls\<rparr>)"
    using assms by (intro flush_deferred) auto
next
  fix t :: ChessEngine
  assume t: "m_writeBuffer t = m_writeBuffer s @ ls \<and> \<not> m_pinging t \<and>
         state t \<noteq> NotStarted \<and> state t \<noteq> Disconnected \<and> io_writable t"
  then have "flushWriteBuffer t =
     Some (t\<lparr>m_writeBuffer := [], trace := trace t @ sent_events t (m_writeBuffer t)\<rparr>)"
    by (simp add: flush_sendable)
  with t show "\<exists>t'. flushWriteBuffer t = Some t' \<and> m_writeBuffer t' = [] \<and>
          trace t' = trace t @ new_events t t' \<and>
          written (new_events t t') = map (\<lambda>l. l @ [CHR 0x0A]) (m_writeBuffer s @ ls)"
    by (simp add: new_events_def written_sent_events)
next
  assume a: "state s \<noteq> NotStarted \<and> io_writable s"
  let ?s = "s\<lparr>m_writeBuffer := m_writeBuffer s @ ls\<rparr>"
  from a assms have pg: "m_pinging ?s" "io_writable ?s" by auto
  show "\<exists>t'. pong ok ?s = Some t' \<and> m_writeBuffer t' = [] \<and>
          written (new_events s t') = map (\<lambda>l. l @ [CHR 0x0A]) (m_writeBuffer s @ ls)"
  proof (cases "state s = FinishingGame")
    case False
    with pg a assms(1) show ?thesis
      by (simp add: pong_other new_events_def written_append written_sent_events)
  next
    case True
    show ?thesis
    proof (cases "m_pingState s = FinishingGame")
      case True
      with pg \<open>state s = FinishingGame\<close> show ?thesis
        by (simp add: pong_settle new_events_def written_append written_sent_events)
    next
      case False
      with pg \<open>state s = FinishingGame\<close> show ?thesis
        by (simp add: pong_reping new_events_def written_append written_sent_events)
    qed
  qed
qed

text \<open>
  Two lines written while a heartbeat is outstanding in \<open>Thinking\<close>: they are buffered,
  a flush leaves them there, and the acknowledgement sends them in order.
\<close>

theorem deferred_writes_flushed_in_order_witness:
  "state (ping True (engine0\<lparr>state := Thinking\<rparr>)) \<noteq> Disconnected \<and>
   m_pinging (ping True (engine0\<lparr>state := Thinking\<rparr>)) \<and>
   write_all [''a'', ''b''] (ping True (engine0\<lparr>state := Thinking\<rparr>)) =
     Some (engine0\<lparr>state := Thinking, m_pingState := Thinking, m_pinging := True,
             m_pingTimer := Some 10000, m_writeBuffer := [''a'', ''b''],
             trace := [SendPing True]\<rparr>) \<and>
   flushWriteBuffer (engine0\<lparr>state := Thinking, m_pingState := Thinking, m_pinging := True,
             m_pingTimer := Some 10000, m_writeBuffer := [''a'', ''b''],
             trace := [SendPing True]\<rparr>) =
     Some (engine0\<lparr>state := Thinking, m_pingState := Thinking, m_pinging := True,
             m_pingTimer := Some 10000, m_writeBuffer := [''a'', ''b''],
             trace := [SendPing True]\<rparr>) \<and>
   pong True (engine0\<lparr>state := Thinking, m_pingState := Thinking, m_pinging := True,
             m_pingTimer := Some 10000, m_writeBuffer := [''a'', ''b''],
             trace := [SendPing True]\<rparr>) =
     Some (engine0\<lparr>state := Thinking, m_pingState := Thinking,
             trace := [SendPing True, DebugMessage ''engine'' 0 ''a'',
                       IoWrite [CHR ''a'', CHR 0x0A], DebugMessage ''engine'' 0 ''b'',
                       IoWrite [CHR ''b'', CHR 0x0A], Ready]\<rparr>)"
  using deferred_writes_flushed_in_order
          [of "ping True (engine0\<lparr>state := Thinking\<rparr>)" "[''a'', ''b'']" True]
  by (simp add: pong_def ping_def engine0_def emit_def flushWriteBuffer_def write_line_def)

text \<open>
  Claim C3 as stated fails in two ways. A session that \<open>quit\<close> marked \<open>Disconnected\<close>
  while a heartbeat was outstanding still awaits it, and \<open>write\<close> drops the line: the
  buffer stays empty. And a line that was buffered behind a heartbeat is discarded when
  the heartbeat times out: the buffer is emptied and no byte has reached the device.
\<close>

theorem deferred_write_lost_counterexample:
  "m_pinging (quit (ping True (engine0\<lparr>state := Idle\<rparr>))) \<and>
   m_writeBuffer (quit (ping True (engine0\<lparr>state := Idle\<rparr>))) = [] \<and>
   write_line ''go'' (quit (ping True (engine0\<lparr>state := Idle\<rparr>))) =
     Some (quit (ping True (engine0\<lparr>state := Idle\<rparr>))) \<and>
   write_line ''go'' (ping True (engine0\<lparr>state := Idle\<rparr>)) =
     Some ((ping True (engine0\<lparr>state := Idle\<rparr>))\<lparr>m_writeBuffer := [''go'']\<rparr>) \<and>
   m_writeBuffer
     (onPingTimeout ((ping True (engine0\<lparr>state := Idle\<rparr>))\<lparr>m_writeBuffer := [''go'']\<rparr>)) = [] \<and>
   written (trace
     (onPingTimeout ((ping True (engine0\<lparr>state := Idle\<rparr>))\<lparr>m_writeBuffer := [''go'']\<rparr>))) = []"
  by (simp add: quit_def ping_def engine0_def emit_def write_line_def setState_def
       onPingTimeout_def closeConnection_def ChessPlayer_closeConnection_def)

subsection \<open>Quitting\<close>

lemma quit_eq:
  "io_open s \<Longrightarrow> state s \<noteq> Disconnected \<Longrightarrow>
   quit s = s\<lparr>state := Disconnected, io_listening := False,
              trace := trace s @ [SendQuit, SetState Disconnected]\<rparr>"
  by (simp add: quit_def setState_def emit_def)

text \<open>
  Claim C10, as amended. On a session whose device is open and whose state is not
  \<open>Disconnected\<close>, \<open>quit\<close> calls \<open>sendQuit\<close>, sets the state to \<open>Disconnected\<close> and
  detaches the listener of the device's \<open>readChannelFinished\<close> signal, and changes
  nothing else: the heartbeat timer, the awaiting-heartbeat flag, the outbound buffer
  and the pending option edits are as before and the device stays open. So a timer that
  was armed is still armed, and when it fires, the timeout still empties the buffer,
  clears the flag and reports one forfeiture, on a session that is already
  \<open>Disconnected\<close> and whose device it leaves open.
\<close>

theorem quit_frame:
  "io_open s \<Longrightarrow> state s \<noteq> Disconnected \<Longrightarrow>
   quit s = s\<lparr>state := Disconnected, io_listening := False,
              trace := trace s @ [SendQuit, SetState Disconnected]\<rparr> \<and>
   m_pingTimer (quit s) = m_pingTimer s \<and> m_pinging (quit s) = m_pinging s \<and>
   m_writeBuffer (quit s) = m_writeBuffer s \<and> m_optionBuffer (quit s) = m_optionBuffer s \<and>
   io_open (quit s) \<and>
   m_writeBuffer (pingTimer_timeout (quit s)) = [] \<and>
   \<not> m_pinging (pingTimer_timeout (quit s)) \<and>
   state (pingTimer_timeout (quit s)) = Disconnected \<and>
   io_open (pingTimer_timeout (quit s)) \<and>
   trace (pingTimer_timeout (quit s)) =
     trace (quit s) @ [QDebug [''Engine'', player_name s, ''failed to respond to ping''],
                       Forfeit WinByStalledConnection]"
  by (simp add: quit_eq pingTimer_timeout_def onPingTimeout_trace onPingTimeout_fields)
     (simp add: onPingTimeout_def closeConnection_def emit_def)

text \<open>
  A session in \<open>Idle\<close> with a line buffered behind a heartbeat quits, and the timer
  fires.
\<close>

theorem quit_frame_witness:
  "io_open (ping True (engine0\<lparr>state := Idle, m_writeBuffer := [''new'']\<rparr>)) \<and>
   state (ping True (engine0\<lparr>state := Idle, m_writeBuffer := [''new'']\<rparr>)) \<noteq> Disconnected \<and>
   quit (ping True (engine0\<lparr>state := Idle, m_writeBuffer := [''new'']\<rparr>)) =
     engine0\<lparr>state := Disconnected, m_pingState := Idle, m_pinging := True,
       m_pingTimer := Some 10000, m_writeBuffer := [''new''], io_listening := False,
       trace := [SendPing True, SendQuit, SetState Disconnected]\<rparr> \<and>
   pingTimer_timeout (quit (ping True (engine0\<lparr>state := Idle, m_writeBuffer := [''new'']\<rparr>))) =
     engine0\<lparr>state := Disconnected, m_pingState := Idle, io_listening := False,
       trace := [SendPing True, SendQuit, SetState Disconnected,
                 QDebug [''Engine'', ''engine'', ''failed to respond to ping''],
                 Forfeit WinByStalledConnection]\<rparr>"
  using quit_frame [of "ping True (engine0\<lparr>state := Idle, m_writeBuffer := [''new'']\<rparr>)"]
  by (simp add: quit_def ping_def engine0_def emit_def setState_def pingTimer_timeout_def
        onPingTimeout_def closeConnection_def)

text \<open>
  Claim C10 as stated fails in ``changes nothing else'': \<open>quit\<close> also disconnects
  \<open>readChannelFinished\<close> from \<open>onDisconnect\<close>.
\<close>

theorem quit_detaches_listener_counterexample:
  "io_open (ping True (engine0\<lparr>state := Idle\<rparr>)) \<and>
   state (ping True (engine0\<lparr>state := Idle\<rparr>)) = Idle \<and>
   io_listening (ping True (engine0\<lparr>state := Idle\<rparr>)) \<and>
   \<not> io_listening (quit (ping True (engine0\<lparr>state := Idle\<rparr>)))"
  by (simp add: quit_def ping_def engine0_def setState_def emit_def)

subsection \<open>Session ids\<close>

lemma assigned_ids_constructs:
  "list_all is_construct ops \<Longrightarrow> c + int (length ops) \<le> INT_MAX \<Longrightarrow>
   assigned_ids ops c = Some (map (\<lambda>k. c + int k) [0..<length ops])"
proof (induction ops arbitrary: c)
  case Nil
  then show ?case by simp
next
  case (Cons op ops)
  from Cons.prems obtain opn wr nm where op: "op = Construct (Some (opn, wr)) nm"
    by (cases op rule: is_construct.cases) auto
  from Cons.prems have lt: "c \<noteq> INT_MAX" by auto
  from Cons.prems
  have "assigned_ids ops (c + 1) = Some (map (\<lambda>k. (c + 1) + int k) [0..<length ops])"
    by (intro Cons.IH) auto
  moreover have "map (\<lambda>k. c + int k) [0..<length (op # ops)] =
      c # map (\<lambda>k. (c + 1) + int k) [0..<length ops]"
    by (simp add: upt_conv_Cons map_Suc_upt [symmetric] del: upt_Suc)
  ultimately show ?case using lt
    by (simp add: op construct_def del: upt_Suc)
qed

text \<open>
  Claim C7, as amended. From any value \<open>c\<close> of the counter, a run of constructions with
  no destruction among them (and no overflow of the counter) assigns the ids \<open>c\<close>,
  \<open>c + 1\<close>, \<open>c + 2\<close>, ... in order: each later session's id is strictly greater, and no
  id is assigned twice. Nothing is promised across a destruction, which decrements the
  counter.
\<close>

theorem ids_increase_without_destruction:
  assumes "list_all is_construct ops" and "c + int (length ops) \<le> INT_MAX"
  shows "\<exists>ids. assigned_ids ops c = Some ids \<and> length ids = length ops \<and>
           sorted_wrt (<) ids \<and> distinct ids \<and>
           (\<forall>k < length ids. ids ! k = c + int k)"
proof -
  let ?ids = "map (\<lambda>k. c + int k) [0..<length ops]"
  have "sorted_wrt (<) ?ids"
    by (simp add: sorted_wrt_map del: upt_Suc)
  moreover have "distinct ?ids"
    by (simp add: distinct_map inj_on_def)
  ultimately show ?thesis
    using assigned_ids_constructs [OF assms] by simp
qed

theorem ids_increase_without_destruction_witness:
  "list_all is_construct
     [Construct (Some (True, True)) ''a'', Construct (Some (True, False)) ''b'',
      Construct (Some (True, True)) ''c''] \<and>
   5 + int (length
     [Construct (Some (True, True)) ''a'', Construct (Some (True, False)) ''b'',
      Construct (Some (True, True)) ''c'']) \<le> INT_MAX \<and>
   assigned_ids
     [Construct (Some (True, True)) ''a'', Construct (Some (True, False)) ''b'',
      Construct (Some (True, True)) ''c''] 5 = Some [5, 6, 7]"
  using ids_increase_without_destruction
          [of "[Construct (Some (True, True)) ''a'', Construct (Some (True, False)) ''b'',
                Construct (Some (True, True)) ''c'']" 5]
  by (simp add: construct_def INT_MAX_def)

text \<open>
  Claim C7 as stated fails. Constructing a session, destroying it and constructing
  another assigns the id 0 twice. With two sessions alive, destroying one and
  constructing a third gives the third the id 1, which the second still has.
\<close>

theorem id_reused_after_destruction_counterexample:
  "assigned_ids [Construct (Some (True, True)) ''a'', Destroy,
                 Construct (Some (True, True)) ''b''] 0 = Some [0, 0] \<and>
   assigned_ids [Construct (Some (True, True)) ''a'', Construct (Some (True, True)) ''b'',
                 Destroy, Construct (Some (True, True)) ''c''] 0 = Some [0, 1, 1]"
  by (simp add: construct_def destruct_def INT_MAX_def INT_MIN_def)

subsection \<open>Option edits made before the protocol has started\<close>

lemma options_sent_append: "options_sent (xs @ ys) = options_sent xs @ options_sent ys"
  by (induction xs rule: options_sent.induct) simp_all

lemma options_sent_sent_events: "options_sent (sent_events s ls) = []"
  by (induction ls) (simp_all add: sent_events_def)

lemma options_sent_edit_events:
  "options_sent (concat (map (edit_events nm opts) edits)) = filter (applicable opts) edits"
  by (induction edits) (auto simp add: options_sent_append split: option.splits)

lemma getOption_less: "getOption opts name = Some i \<Longrightarrow> i < length opts"
  by (induction opts arbitrary: i) (auto split: if_splits)

lemma getOption_names:
  "map opt_name opts = map opt_name opts' \<Longrightarrow> getOption opts name = getOption opts' name"
proof (induction opts arbitrary: opts')
  case Nil
  then show ?case by simp
next
  case (Cons a opts)
  then obtain b os where "opts' = b # os" by (cases opts') auto
  with Cons show ?case by auto
qed

lemma same_shape_refl: "same_shape opts opts"
  by (simp add: same_shape_def)

lemma same_shape_trans: "same_shape a b \<Longrightarrow> same_shape b c \<Longrightarrow> same_shape a c"
  by (simp add: same_shape_def)

lemma same_shape_update:
  "i < length opts \<Longrightarrow> same_shape opts (opts[i := (opts ! i)\<lparr>opt_value := v\<rparr>])"
  by (simp add: same_shape_def list_eq_iff_nth_eq nth_list_update)

lemma same_shape_length: "same_shape opts opts' \<Longrightarrow> length opts = length opts'"
  by (auto simp add: same_shape_def dest: map_eq_imp_length_eq)

lemma same_shape_isValid:
  assumes "same_shape opts opts'" and "i < length opts"
  shows "opt_isValid (opts ! i) = opt_isValid (opts' ! i)"
proof -
  have "opt_isValid (opts ! i) = map opt_isValid opts ! i"
    using assms(2) by simp
  also have "\<dots> = map opt_isValid opts' ! i"
    using assms(1) by (simp only: same_shape_def)
  also have "\<dots> = opt_isValid (opts' ! i)"
    using assms(2) same_shape_length [OF assms(1)] by simp
  finally show ?thesis .
qed

lemma edit_events_shape:
  assumes "same_shape opts opts'"
  shows "edit_events nm opts e = edit_events nm opts' e"
proof (cases e)
  case (Pair name val)
  from assms have "map opt_name opts' = map opt_name opts"
    by (simp add: same_shape_def)
  then have g: "getOption opts' name = getOption opts name"
    by (rule getOption_names)
  show ?thesis
  proof (cases "getOption opts name")
    case None
    then show ?thesis unfolding Pair by (simp add: g)
  next
    case (Some i)
    then have "i < length opts" by (rule getOption_less)
    then have "opt_isValid (opts ! i) = opt_isValid (opts' ! i)"
      using assms by (simp add: same_shape_isValid)
    then show ?thesis unfolding Pair by (simp add: g Some)
  qed
qed

lemma apply_edit_shape: "same_shape opts (apply_edit e opts)"
  by (cases e) (auto simp add: same_shape_refl same_shape_update getOption_less split: option.splits)

lemma setOption_applied:
  assumes "state s \<noteq> Starting" "state s \<noteq> NotStarted"
  shows "setOption name val s =
     s\<lparr>m_options := apply_edit (name, val) (m_options s),
       trace := trace s @ edit_events (player_name s) (m_options s) (name, val)\<rparr>"
proof (cases "getOption (m_options s) name")
  case None
  with assms show ?thesis by (simp add: setOption_def emit_def)
next
  case (Some i)
  with assms show ?thesis by (simp add: setOption_def emit_def)
qed

lemma fold_setOption:
  assumes "state s \<noteq> Starting" "state s \<noteq> NotStarted"
  shows "fold (\<lambda>(name, val). setOption name val) edits s =
           s\<lparr>m_options := fold apply_edit edits (m_options s),
             trace := trace s @ concat (map (edit_events (player_name s) (m_options s)) edits)\<rparr>"
  using assms
proof (induction edits arbitrary: s)
  case Nil
  then show ?case by simp
next
  case (Cons e edits)
  obtain name val where e: "e = (name, val)" by (cases e)
  let ?s1 = "s\<lparr>m_options := apply_edit (name, val) (m_options s),
       trace := trace s @ edit_events (player_name s) (m_options s) (name, val)\<rparr>"
  have s1: "setOption name val s = ?s1"
    using Cons.prems by (rule setOption_applied)
  have ih: "fold (\<lambda>(name, val). setOption name val) edits ?s1 =
           ?s1\<lparr>m_options := fold apply_edit edits (m_options ?s1),
             trace := trace ?s1 @ concat (map (edit_events (player_name ?s1) (m_options ?s1)) edits)\<rparr>"
    using Cons.prems by (intro Cons.IH) simp_all
  have ev: "map (edit_events (player_name s) (apply_edit (name, val) (m_options s))) edits =
            map (edit_events (player_name s) (m_options s)) edits"
    using edit_events_shape [OF apply_edit_shape [of "m_options s" "(name, val)"], symmetric]
    by simp
  show ?case
    unfolding e using ih ev by (simp add: s1 del: edit_events.simps apply_edit.simps)
qed

lemma onProtocolStart_eq:
  assumes "rdy Idle" "io_writable s"
  shows "onProtocolStart rdy s =
     Some (s\<lparr>state := Idle, m_pinging := False, m_writeBuffer := [], m_optionBuffer := [],
             m_options := fold apply_edit (m_optionBuffer s) (m_options s),
             trace := trace s @ [SetState Idle] @ sent_events s (m_writeBuffer s) @
                concat (map (edit_events (player_name s) (m_options s)) (m_optionBuffer s))\<rparr>)"
proof -
  let ?s1 = "setState Idle (s\<lparr>m_pinging := False\<rparr>)"
  have s1: "?s1 = s\<lparr>state := Idle, m_pinging := False, trace := trace s @ [SetState Idle]\<rparr>"
    by (simp add: setState_def emit_def)
  let ?s2 = "?s1\<lparr>m_writeBuffer := [], trace := trace ?s1 @ sent_events ?s1 (m_writeBuffer ?s1)\<rparr>"
  have fl: "flushWriteBuffer ?s1 = Some ?s2"
    using assms by (intro flush_sendable) (simp_all add: s1)
  have fo: "fold (\<lambda>(name, val). setOption name val) (m_optionBuffer ?s2) ?s2 =
      ?s2\<lparr>m_options := fold apply_edit (m_optionBuffer ?s2) (m_options ?s2),
          trace := trace ?s2 @ concat (map (edit_events (player_name ?s2) (m_options ?s2)) (m_optionBuffer ?s2))\<rparr>"
    by (intro fold_setOption) (simp_all add: s1)
  have rd: "isReady rdy ?s1" using assms by (simp add: isReady_def s1)
  have "onProtocolStart rdy s = Some
     ((fold (\<lambda>(name, val). setOption name val) (m_optionBuffer ?s2) ?s2)\<lparr>m_optionBuffer := []\<rparr>)"
    unfolding onProtocolStart_def Let_def using rd fl by simp
  also have "\<dots> = Some (s\<lparr>state := Idle, m_pinging := False, m_writeBuffer := [], m_optionBuffer := [],
             m_options := fold apply_edit (m_optionBuffer s) (m_options s),
             trace := trace s @ [SetState Idle] @ sent_events s (m_writeBuffer s) @
                concat (map (edit_events (player_name s) (m_options s)) (m_optionBuffer s))\<rparr>)"
    unfolding fo by (simp add: s1 sent_events_def)
  finally show ?thesis .
qed

text \<open>
  Claim C4, as amended. While the state is \<open>NotStarted\<close> or \<open>Starting\<close>,
  \<open>setOption\<close> only appends the edit to the pending edits: the trace is unchanged, so
  no command is issued. When the protocol has started (the base class reports ready in
  \<open>Idle\<close> and the device is writable, as the assertions of \<open>onProtocolStart\<close> and
  \<open>write\<close> require), \<open>onProtocolStart\<close> sets the state to \<open>Idle\<close>, flushes the
  outbound buffer, and then handles every pending edit exactly once, in the order
  submitted, and empties the queue: an edit that names a declared option and carries a
  value the option accepts is stored and sent with exactly one \<open>sendOption\<close> call; an
  edit that names no option, or whose value the option rejects, produces a diagnostic
  and no command.
\<close>

theorem pending_options_applied_in_order:
  assumes "state s = Starting \<or> state s = NotStarted"
  shows
   "setOption name val s = s\<lparr>m_optionBuffer := m_optionBuffer s @ [(name, val)]\<rparr> \<and>
    (rdy Idle \<and> io_writable s \<longrightarrow>
       (\<exists>s'. onProtocolStart rdy s = Some s' \<and> state s' = Idle \<and> m_optionBuffer s' = [] \<and>
          new_events s s' =
            [SetState Idle] @ sent_events s (m_writeBuffer s) @
            concat (map (edit_events (player_name s) (m_options s)) (m_optionBuffer s)) \<and>
          options_sent (new_events s s') =
            filter (applicable (m_options s)) (m_optionBuffer s) \<and>
          m_options s' = fold apply_edit (m_optionBuffer s) (m_options s)))"
proof (intro conjI impI)
  show "setOption name val s = s\<lparr>m_optionBuffer := m_optionBuffer s @ [(name, val)]\<rparr>"
    using assms by (simp add: setOption_def)
next
  assume a: "rdy Idle \<and> io_writable s"
  then have "onProtocolStart rdy s =
     Some (s\<lparr>state := Idle, m_pinging := False, m_writeBuffer := [], m_optionBuffer := [],
             m_options := fold apply_edit (m_optionBuffer s) (m_options s),
             trace := trace s @ [SetState Idle] @ sent_events s (m_writeBuffer s) @
                concat (map (edit_events (player_name s) (m_options s)) (m_optionBuffer s))\<rparr>)"
    by (simp add: onProtocolStart_eq)
  then show "\<exists>s'. onProtocolStart rdy s = Some s' \<and> state s' = Idle \<and> m_optionBuffer s' = [] \<and>
          new_events s s' =
            [SetState Idle] @ sent_events s (m_writeBuffer s) @
            concat (map (edit_events (player_name s) (m_options s)) (m_optionBuffer s)) \<and>
          options_sent (new_events s s') =
            filter (applicable (m_options s)) (m_optionBuffer s) \<and>
          m_options s' = fold apply_edit (m_optionBuffer s) (m_options s)"
    by (simp add: new_events_def options_sent_append options_sent_sent_events
          options_sent_edit_events del: edit_events.simps applicable.simps)
qed

text \<open>
  The scenario of the specification, with a line buffered during startup: the option
  \<open>Hash\<close> is declared, \<open>setOption\<close> of \<open>Hash\<close> to 128 in \<open>Starting\<close> queues the
  edit, and \<open>onProtocolStart\<close> sends the buffered line, then one \<open>sendOption\<close>, and
  the option's value is 128.
\<close>

theorem pending_options_applied_in_order_witness:
  "start (engine0\<lparr>m_options := [hash_option]\<rparr>) =
     Some (engine0\<lparr>state := Starting, m_pinging := True, m_options := [hash_option],
             trace := [SetState Starting, StartProtocol]\<rparr>) \<and>
   state (engine0\<lparr>state := Starting, m_pinging := True, m_options := [hash_option],
             trace := [SetState Starting, StartProtocol]\<rparr>) = Starting \<and>
   setOption ''Hash'' ''128''
       (engine0\<lparr>state := Starting, m_pinging := True, m_options := [hash_option],
             trace := [SetState Starting, StartProtocol]\<rparr>) =
     engine0\<lparr>state := Starting, m_pinging := True, m_options := [hash_option],
             m_optionBuffer := [(''Hash'', ''128'')],
             trace := [SetState Starting, StartProtocol]\<rparr> \<and>
   onProtocolStart (\<lambda>st. True)
       (engine0\<lparr>state := Starting, m_pinging := True, m_options := [hash_option],
             m_optionBuffer := [(''Hash'', ''128'')], m_writeBuffer := [''new''],
             trace := [SetState Starting, StartProtocol]\<rparr>) =
     Some (engine0\<lparr>state := Idle, m_options := [hash_option\<lparr>opt_value := ''128''\<rparr>],
             trace := [SetState Starting, StartProtocol, SetState Idle,
                       DebugMessage ''engine'' 0 ''new'',
                       IoWrite [CHR ''n'', CHR ''e'', CHR ''w'', CHR 0x0A],
                       SendOption ''Hash'' ''128'']\<rparr>)"
  using pending_options_applied_in_order
          [of "engine0\<lparr>state := Starting, m_pinging := True, m_options := [hash_option],
             trace := [SetState Starting, StartProtocol]\<rparr>" "''Hash''" "''128''" "\<lambda>st. True"]
        pending_options_applied_in_order
          [of "engine0\<lparr>state := Starting, m_pinging := True, m_options := [hash_option],
             m_optionBuffer := [(''Hash'', ''128'')], m_writeBuffer := [''new''],
             trace := [SetState Starting, StartProtocol]\<rparr>" "''Hash''" "''128''" "\<lambda>st. True"]
  by (simp add: engine0_def hash_option_def start_def onProtocolStart_def setOption_def
        flushWriteBuffer_def write_line_def setState_def emit_def isReady_def)

text \<open>
  Claim C4 as stated fails for an edit that cannot be applied. Queued in \<open>Starting\<close>,
  an edit of an option the engine has not declared, or one whose value the option
  rejects, yields a \<open>qDebug\<close> line at \<open>onProtocolStart\<close> and no \<open>sendOption\<close>.
\<close>

theorem unknown_option_not_sent_counterexample:
  "onProtocolStart (\<lambda>st. True)
     (setOption ''Hash'' ''128'' (engine0\<lparr>state := Starting, m_pinging := True\<rparr>)) =
     Some (engine0\<lparr>state := Idle,
             trace := [SetState Idle, QDebug [''engine'', ''doesn't have option'', ''Hash'']]\<rparr>) \<and>
   onProtocolStart (\<lambda>st. True)
     (setOption ''Hash'' ''0''
        (engine0\<lparr>state := Starting, m_pinging := True, m_options := [hash_option]\<rparr>)) =
     Some (engine0\<lparr>state := Idle, m_options := [hash_option],
             trace := [SetState Idle, QDebug [''Invalid value for option'', ''Hash'', '':'', ''0'']]\<rparr>)"
  by (simp add: engine0_def hash_option_def onProtocolStart_def setOption_def
        flushWriteBuffer_def setState_def emit_def isReady_def)

section \<open>Properties of the Crazyhouse board\<close>

lemma handPieceType_header:
  "handPieceType PromotedKnight = Plain Pawn" "handPieceType PromotedBishop = Plain Pawn"
  "handPieceType PromotedRook = Plain Pawn" "handPieceType PromotedQueen = Plain Pawn"
  by (simp_all add: PromotedKnight_def PromotedBishop_def PromotedRook_def PromotedQueen_def)

lemma handPieceType_not_promoted: "\<not> isPromoted (handPieceType ty)"
  by (cases ty) simp_all

lemma handPieceType_promote: "handPieceType (promote ty t) = handPieceType ty"
  by (cases ty) simp_all



text \<open>The knight of \<open>board0\<close> moves to square 2 and is promoted to a queen.\<close>

lemma promotion_board0:
  "vMakeMove \<lparr>sourceSquare = Some 1, targetSquare = 2, promotion = Some Queen\<rparr> board0 =
     Some (board1, \<lparr>movedPiece = Some (Black, Plain Knight), capturedPiece = None\<rparr>)"
  by (simp add: vMakeMove_def board0_def board1_def)



end
